theory Spec2Isabelle
  imports Main "HOL-Library.Word" "HOL-Library.Signed_Division"
begin

section \<open>The FemtOS commander: file browser, launcher and command shell\<close>

text \<open>
  A shallow embedding of \<^verbatim>\<open>FemtoRV/FIRMWARE/FEMTOS/commander.c\<close>.  The program runs on
  a 32-bit RISC-V core: every C \<^verbatim>\<open>int\<close> is a 32-bit word, compared as a signed number
  (\<open><s\<close>, \<open>\<le>s\<close>) and wrapping on overflow.  Calls into the display library, the FAT
  library and the program loader are recorded, in order, in a trace of events; the
  directory the FAT library enumerates and the behaviour of \<^verbatim>\<open>exec\<close> are parameters.
\<close>

subsection \<open>C integers and the macros of the file\<close>

type_synonym c_int = "32 word"

definition FONT_HEIGHT :: c_int where
  "FONT_HEIGHT = 8"

definition PATH_LEN :: nat where
  "PATH_LEN = 255"

text \<open>C's \<^verbatim>\<open>/\<close> on \<^verbatim>\<open>int\<close>: the quotient truncated towards zero.\<close>

definition c_div :: "c_int \<Rightarrow> c_int \<Rightarrow> c_int" where
  "c_div a b = word_of_int (sint a sdiv sint b)"

text \<open>
  \<^verbatim>\<open>#define LINES OLED_HEIGHT / FONT_HEIGHT\<close>.  \<^verbatim>\<open>OLED_HEIGHT\<close> is declared in
  \<^verbatim>\<open>femtoGL.h\<close>, which is not among the sources, so the height of the display is a
  parameter of everything that uses the page size.  In both places where the macro is
  expanded (\<^verbatim>\<open>from + LINES\<close> and \<^verbatim>\<open>sel-LINES+1\<close>) the division binds tighter than the
  surrounding operators, so the unparenthesised macro is the quotient.
\<close>

definition LINES :: "c_int \<Rightarrow> c_int" where
  "LINES OLED_HEIGHT = c_div OLED_HEIGHT FONT_HEIGHT"

text \<open>
  Modelled from the spec: \<^verbatim>\<open>MIN\<close> and \<^verbatim>\<open>MAX\<close> are macros of \<^verbatim>\<open>femtostdlib.h\<close>, which
  is not among the sources; the specification reads them as the minimum and the maximum
  of two integers, here the signed comparison of two \<^verbatim>\<open>int\<close>.
\<close>

definition MIN_int :: "c_int \<Rightarrow> c_int \<Rightarrow> c_int" where
  "MIN_int x y = (if x <s y then x else y)"

definition MAX_int :: "c_int \<Rightarrow> c_int \<Rightarrow> c_int" where
  "MAX_int x y = (if y <s x then x else y)"

subsection \<open>The executable filter\<close>

text \<open>
  \<^verbatim>\<open>is_executable\<close>, lines 15-20.  A C string is the list of its characters before the
  terminator; \<^verbatim>\<open>filename + l - 4\<close> is the string without its first \<open>l - 4\<close> characters
  and \<^verbatim>\<open>!strcmp(s, t)\<close> is equality of strings.
\<close>

definition is_executable :: "string \<Rightarrow> bool" where
  "is_executable filename =
     (let l = int (length filename)
      in (l \<ge> 4 \<and> drop (nat (l - 4)) filename = ''.bin'') \<or>
         (l \<ge> 4 \<and> drop (nat (l - 4)) filename = ''.elf''))"

subsection \<open>Events, machine state and results\<close>

datatype font = Font3x5 | Font5x6 | Font8x8 | Font8x16

text \<open>
  The argument of \<^verbatim>\<open>GL_tty_init\<close>: one of the two mode macros the file names, the
  current value of the library's global \<^verbatim>\<open>FGA_mode\<close>, or a number typed by the user.
\<close>

datatype mode_arg = GL_MODE_OLED | FGA_MODE_640x400x4bpp | FGA_mode | Mode_value c_int

datatype event =
    GL_tty_goto_xy nat nat
  | GL_clear
  | GL_set_fg nat nat nat
  | GL_set_bg nat nat nat
  | GL_tty_init mode_arg
  | GL_set_font font
  | Printf string
  | Putchar char
  | Fl_listdirectory string
  | Exec string

text \<open>
  The globals of the file (\<^verbatim>\<open>cwd\<close>, \<^verbatim>\<open>sel\<close>, \<^verbatim>\<open>from\<close>) and the trace of library
  calls made so far.
\<close>

record machine =
  cwd :: string
  sel :: c_int
  from_idx :: c_int
  trace :: "event list"

definition emit :: "event \<Rightarrow> machine \<Rightarrow> machine" where
  "emit e st = st\<lparr>trace := trace st @ [e]\<rparr>"

text \<open>
  A call either returns a value and the machine it leaves, or control never comes back
  to the caller: the launched program took over, the process exited, the loop waits
  for input that never arrives, or a write went past the end of an array (undefined in
  C, a stop of its own in the model).
\<close>

datatype stop = Program_launched | Process_exit | Awaiting_input | Buffer_overrun | Argv_overrun

datatype 'a result = Return 'a machine | Stop stop machine

text \<open>
  The storage adapter: \<open>None\<close> when \<^verbatim>\<open>fl_opendir\<close> fails; otherwise the file names
  \<^verbatim>\<open>fl_readdir\<close> yields, in order, until it reports the end of the directory.
\<close>

type_synonym directory = "string list option"

definition newline :: char where
  "newline = CHR 0x0A"

subsection \<open>The directory page: \<^verbatim>\<open>refresh\<close>\<close>

text \<open>
  Lines 44-50: the name printed for a listed file.  \<^verbatim>\<open>strncpy\<close> copies the first
  \<open>min (l - 4) 14\<close> characters, then a dot is stored at index 14 and terminators at
  indices 15 and \<open>l - 4\<close>; what \<^verbatim>\<open>printf\<close> reads back is the stem when it has at most
  14 characters, and its first 14 characters and a dot otherwise.  (The store at
  index \<open>l - 4\<close> stays inside the 255-byte buffer for every FAT long file name.)
\<close>

definition current_name :: "string \<Rightarrow> string" where
  "current_name filename =
     (let l = length filename
      in if l - 4 \<le> 14 then take (l - 4) filename else take 14 filename @ ''.'')"

text \<open>The body of the \<^verbatim>\<open>while\<close> loop of \<^verbatim>\<open>refresh\<close>, lines 35-57, over the entries left.\<close>

fun refresh_loop :: "c_int \<Rightarrow> c_int \<Rightarrow> c_int \<Rightarrow> c_int \<Rightarrow> string list \<Rightarrow> machine \<Rightarrow> c_int \<times> machine" where
  "refresh_loop h from0 sel0 cur [] st = (cur, st)"
| "refresh_loop h from0 sel0 cur (filename # rest) st =
     (if \<not> is_executable filename then refresh_loop h from0 sel0 cur rest st
      else if from0 \<le>s cur \<and> cur <s from0 + LINES h then
        (let st1 = (if cur = sel0 then emit (GL_set_bg 255 255 255) (emit (GL_set_fg 0 0 0) st) else st);
             st2 = emit (Printf (current_name filename @ [newline])) st1;
             st3 = (if cur = sel0 then emit (GL_set_fg 255 255 255) (emit (GL_set_bg 0 0 0) st2) else st2)
         in refresh_loop h from0 sel0 (cur + 1) rest st3)
      else refresh_loop h from0 sel0 (cur + 1) rest st)"

text \<open>\<^verbatim>\<open>refresh\<close>, lines 27-61: returns \<^verbatim>\<open>cur\<close>.\<close>

definition refresh :: "c_int \<Rightarrow> directory \<Rightarrow> machine \<Rightarrow> c_int \<Rightarrow> c_int \<Rightarrow> c_int \<times> machine" where
  "refresh h dir st from0 sel0 =
     (let st1 = emit GL_clear (emit (GL_tty_goto_xy 0 0) st)
      in case dir of
           None \<Rightarrow> (0, st1)
         | Some entries \<Rightarrow> refresh_loop h from0 sel0 0 entries st1)"

subsection \<open>The launcher: \<^verbatim>\<open>call_exec\<close>\<close>

text \<open>
  \<open>exec_returns path\<close> tells whether \<^verbatim>\<open>exec(path)\<close> comes back to its caller (the file
  is missing, or the program returned without calling \<^verbatim>\<open>exit\<close>).  The two
  \<^verbatim>\<open>strcpy\<close> build \<open>cwd @ filename\<close> in the 255-byte \<^verbatim>\<open>buff\<close>.
\<close>

fun call_exec_loop :: "(string \<Rightarrow> bool) \<Rightarrow> c_int \<Rightarrow> c_int \<Rightarrow> string list \<Rightarrow> machine \<Rightarrow> unit result" where
  "call_exec_loop exec_returns sel0 cur [] st = Return () st"
| "call_exec_loop exec_returns sel0 cur (filename # rest) st =
     (if is_executable filename then
        (if cur = sel0 \<and> is_executable filename then
           (let buff = cwd st @ filename
            in if PATH_LEN \<le> length buff then Stop Buffer_overrun st
               else if exec_returns buff then Stop Process_exit (emit (Exec buff) st)
               else Stop Program_launched (emit (Exec buff) st))
         else call_exec_loop exec_returns sel0 (cur + 1) rest st)
      else call_exec_loop exec_returns sel0 cur rest st)"

text \<open>\<^verbatim>\<open>call_exec\<close>, lines 63-82.\<close>

definition call_exec :: "(string \<Rightarrow> bool) \<Rightarrow> directory \<Rightarrow> machine \<Rightarrow> c_int \<Rightarrow> unit result" where
  "call_exec exec_returns dir st sel0 =
     (case dir of
        None \<Rightarrow> Return () st
      | Some entries \<Rightarrow> call_exec_loop exec_returns sel0 0 entries st)"

subsection \<open>Selection and scrolling in \<^verbatim>\<open>main\<close>\<close>

text \<open>Lines 186-191 and 204-209: the two \<^verbatim>\<open>if\<close> statements that constrain \<^verbatim>\<open>sel\<close>.\<close>

definition constrain_sel :: "c_int \<Rightarrow> c_int \<Rightarrow> c_int" where
  "constrain_sel nb sel0 =
     (let sel1 = (if sel0 <s 0 then 0 else sel0);
          sel2 = (if nb \<le>s sel1 then nb - 1 else sel1)
      in sel2)"

text \<open>Lines 192-193 and 211-212: the two assignments to \<^verbatim>\<open>from\<close>.\<close>

definition scroll_from :: "c_int \<Rightarrow> c_int \<Rightarrow> c_int \<Rightarrow> c_int" where
  "scroll_from h sel0 from0 =
     (let from1 = MIN_int from0 sel0;
          from2 = MAX_int from1 (sel0 - LINES h + 1)
      in from2)"

text \<open>
  Lines 186-193 together, on the pair \<open>(sel, from)\<close> with the count \<open>nb\<close> that
  \<^verbatim>\<open>refresh\<close> returned.
\<close>

definition reclamp :: "c_int \<Rightarrow> c_int \<Rightarrow> c_int \<times> c_int \<Rightarrow> c_int \<times> c_int" where
  "reclamp h nb p =
     (let sel1 = constrain_sel nb (fst p);
          from1 = scroll_from h sel1 (snd p)
      in (sel1, from1))"

subsection \<open>The command shell\<close>

text \<open>
  \<^verbatim>\<open>strtok\<close> and \<^verbatim>\<open>atoi\<close> belong to the C library, which is not among the sources;
  both are modelled from ISO C.  \<open>strtok\<close> works on the part of the string not scanned
  yet, with the one-character delimiter set \<^verbatim>\<open>" "\<close> the shell passes: it skips leading
  delimiters, gives no token when nothing is left, and otherwise returns the characters
  up to the next delimiter together with what follows that delimiter.
\<close>

definition strtok :: "string \<Rightarrow> (string \<times> string) option" where
  "strtok s =
     (let s1 = dropWhile (\<lambda>c. c = CHR '' '') s
      in if s1 = [] then None
         else Some (takeWhile (\<lambda>c. c \<noteq> CHR '' '') s1,
                    drop 1 (dropWhile (\<lambda>c. c \<noteq> CHR '' '') s1)))"

definition isspace :: "char \<Rightarrow> bool" where
  "isspace c = (c \<in> {CHR '' '', CHR 0x09, CHR 0x0A, CHR 0x0B, CHR 0x0C, CHR 0x0D})"

definition isdigit :: "char \<Rightarrow> bool" where
  "isdigit c = (48 \<le> (of_char c :: nat) \<and> (of_char c :: nat) \<le> 57)"

fun atoi_digits :: "c_int \<Rightarrow> string \<Rightarrow> c_int" where
  "atoi_digits acc [] = acc"
| "atoi_digits acc (c # cs) =
     (if isdigit c then atoi_digits (acc * 10 + (of_nat (of_char c) - 48)) cs else acc)"

text \<open>
  \<open>atoi\<close>: optional white space, an optional sign, then decimal digits; 0 when there is
  no digit.  A value that does not fit an \<^verbatim>\<open>int\<close> (undefined in ISO C) wraps.
\<close>

definition atoi :: "string \<Rightarrow> c_int" where
  "atoi s =
     (case dropWhile isspace s of
        [] \<Rightarrow> 0
      | c # cs \<Rightarrow>
          if c = CHR ''-'' then - atoi_digits 0 cs
          else if c = CHR ''+'' then atoi_digits 0 cs
          else atoi_digits 0 (c # cs))"

text \<open>
  Lines 157-161: the tokenizing loop.  \<open>argv\<close> holds the tokens stored so far, so
  \<^verbatim>\<open>argc\<close> is its length; the array has 100 elements, and a store at index 100 or
  beyond is outside it.
\<close>

function tokenize_loop :: "string list \<Rightarrow> string \<Rightarrow> string list option" where
  "tokenize_loop argv s =
     (case strtok s of
        None \<Rightarrow> Some argv
      | Some (ptr, s') \<Rightarrow>
          if 100 \<le> length argv then None
          else tokenize_loop (argv @ [ptr]) s')"
  by pat_completeness auto

lemma strtok_shorter: "strtok s = Some (ptr, s') \<Longrightarrow> length s' < length s"
proof -
  assume a: "strtok s = Some (ptr, s')"
  let ?s1 = "dropWhile (\<lambda>c. c = CHR '' '') s"
  from a have ne: "?s1 \<noteq> []" and s': "s' = drop 1 (dropWhile (\<lambda>c. c \<noteq> CHR '' '') ?s1)"
    by (auto simp: strtok_def Let_def split: if_splits)
  have "length s' \<le> length (dropWhile (\<lambda>c. c \<noteq> CHR '' '') ?s1) - 1"
    by (simp add: s')
  moreover have "length (dropWhile (\<lambda>c. c \<noteq> CHR '' '') ?s1) \<le> length ?s1"
    by (rule length_dropWhile_le)
  moreover have "length ?s1 \<le> length s"
    by (rule length_dropWhile_le)
  moreover from ne have "0 < length ?s1"
    by simp
  ultimately show ?thesis
    by linarith
qed

termination tokenize_loop
  by (relation "measure (\<lambda>(argv, s). length s)") (auto dest: strtok_shorter)

declare tokenize_loop.simps [simp del]

text \<open>
  The command line as a C string: the characters stored before the first terminator.
  (A NUL typed by the user is stored like any other character.)
\<close>

definition c_string :: "string \<Rightarrow> string" where
  "c_string buf = takeWhile (\<lambda>c. c \<noteq> CHR 0x00) buf"

text \<open>
  \<^verbatim>\<open>shell_exec\<close>, lines 88-135.  The list \<open>argv\<close> is the \<^verbatim>\<open>argc\<close> tokens the caller
  stored, so \<^verbatim>\<open>argc\<close> is its length.  In the last branch the three \<^verbatim>\<open>strcpy\<close> build
  \<open>cwd @ argv[0] @ ".elf"\<close> in the 255-byte \<^verbatim>\<open>buff\<close>.
\<close>

definition shell_exec :: "(string \<Rightarrow> bool) \<Rightarrow> machine \<Rightarrow> string list \<Rightarrow> c_int result" where
  "shell_exec exec_returns st argv =
     (let argc = length argv
      in if argc = 0 then Return 1 st
         else if argv ! 0 = ''exit'' then Return 0 st
         else if argv ! 0 = ''ls'' then Return 1 (emit (Fl_listdirectory (cwd st)) st)
         else if argv ! 0 = ''pwd'' then Return 1 (emit (Printf ([newline] @ cwd st @ [newline])) st)
         else if argv ! 0 = ''mode'' then
           (if argc \<noteq> 2 then Return 1 (emit (Printf ''invalid number of arguments'') st)
            else (let mode = atoi (argv ! 1)
                  in Return 1 (emit (GL_tty_init (Mode_value mode)) st)))
         else if argv ! 0 = ''font'' then
           (if argc \<noteq> 2 then Return 1 (emit (Printf ''invalid number of arguments'') st)
            else (let st1 = emit (GL_tty_init FGA_mode) st;
                      font = atoi (argv ! 1)
                  in if font = 0 then Return 1 (emit (GL_set_font Font3x5) st1)
                     else if font = 1 then Return 1 (emit (GL_set_font Font5x6) st1)
                     else if font = 2 then Return 1 (emit (GL_set_font Font8x8) st1)
                     else if font = 3 then Return 1 (emit (GL_set_font Font8x16) st1)
                     else Return 1 st1))
         else
           (let st1 = emit (Printf [newline]) st;
                buff = cwd st @ argv ! 0 @ ''.elf''
            in if PATH_LEN \<le> length buff then Stop Buffer_overrun st1
               else if exec_returns buff then Return 1 (emit (Exec buff) st1)
               else Stop Program_launched (emit (Exec buff) st1)))"

text \<open>
  One turn of the \<^verbatim>\<open>for(;;)\<close> loop of \<^verbatim>\<open>shell\<close>, lines 148-168, for the value \<open>c\<close>
  that \<^verbatim>\<open>getchar\<close> returned.  \<open>buf\<close> is what has been stored in \<^verbatim>\<open>cmdline\<close> since the
  last dispatch (\<^verbatim>\<open>ptr\<close> is \<open>cmdline + length buf\<close>).  The turn leaves the shell
  editing a line, or breaks out of the loop.
\<close>

datatype shell_status = Line_editing string | Shell_break

definition shell_turn :: "(string \<Rightarrow> bool) \<Rightarrow> machine \<Rightarrow> string \<Rightarrow> int \<Rightarrow> shell_status result" where
  "shell_turn exec_returns st buf c =
     (if c \<noteq> 10 \<and> c \<noteq> 13 then
        (let st1 = emit (Putchar (char_of c)) st
         in if length buf < PATH_LEN - 2 then Return (Line_editing (buf @ [char_of c])) st1
            else Return (Line_editing buf) st1)
      else
        (case tokenize_loop [] (c_string buf) of
           None \<Rightarrow> Stop Argv_overrun st
         | Some argv \<Rightarrow>
             (case shell_exec exec_returns st argv of
                Stop r st1 \<Rightarrow> Stop r st1
              | Return v st1 \<Rightarrow>
                  if v = 0 then Return Shell_break st1
                  else Return (Line_editing []) (emit (Putchar CHR '']'') (emit (Putchar newline) st1)))))"

text \<open>The loop over the characters that arrive; \<^verbatim>\<open>getchar\<close> blocks when there is none.\<close>

fun shell_loop :: "(string \<Rightarrow> bool) \<Rightarrow> machine \<Rightarrow> string \<Rightarrow> int list \<Rightarrow> (int list) result" where
  "shell_loop exec_returns st buf [] = Stop Awaiting_input st"
| "shell_loop exec_returns st buf (c # cs) =
     (case shell_turn exec_returns st buf c of
        Stop r st1 \<Rightarrow> Stop r st1
      | Return Shell_break st1 \<Rightarrow> Return cs st1
      | Return (Line_editing buf1) st1 \<Rightarrow> shell_loop exec_returns st1 buf1 cs)"

text \<open>\<^verbatim>\<open>shell\<close>, lines 137-171; returns the input it did not read.\<close>

definition shell :: "(string \<Rightarrow> bool) \<Rightarrow> machine \<Rightarrow> int list \<Rightarrow> (int list) result" where
  "shell exec_returns st input =
     (let st1 = emit (GL_tty_init FGA_MODE_640x400x4bpp) st;
          st2 = emit (GL_set_font Font8x16) st1;
          st3 = emit (Printf (''FemtOS v. 0.0'' @ [newline])) st2;
          st4 = emit (Putchar CHR '']'') st3
      in case shell_loop exec_returns st4 [] input of
           Stop r st5 \<Rightarrow> Stop r st5
         | Return rest st5 \<Rightarrow> Return rest (emit (GL_tty_init GL_MODE_OLED) st5))"

subsection \<open>The browser loop of \<^verbatim>\<open>main\<close>\<close>

text \<open>
  One turn of the \<^verbatim>\<open>for(;;)\<close> loop, lines 197-214, for the button \<open>btn\<close>.  The
  environment of the turn: the directory as the launcher finds it, the characters typed
  while the shell runs, and the directory as the final \<^verbatim>\<open>refresh\<close> finds it.  The value
  returned is the new \<^verbatim>\<open>nb\<close>.
\<close>

definition main_turn ::
  "c_int \<Rightarrow> (string \<Rightarrow> bool) \<Rightarrow> directory \<Rightarrow> int list \<Rightarrow> directory \<Rightarrow> c_int \<Rightarrow> c_int \<Rightarrow> machine \<Rightarrow> c_int result" where
  "main_turn h exec_returns dir_launch input dir_refresh btn nb st =
     (case (if btn = 2 then Return () (st\<lparr>sel := sel st - 1\<rparr>)
            else if btn = 3 then Return () (st\<lparr>sel := sel st + 1\<rparr>)
            else if btn = 5 then call_exec exec_returns dir_launch st (sel st)
            else if btn = 4 then
              (case shell exec_returns st input of
                 Stop r st1 \<Rightarrow> Stop r st1
               | Return rest st1 \<Rightarrow> Return () st1)
            else Return () st) of
        Stop r st1 \<Rightarrow> Stop r st1
      | Return u st1 \<Rightarrow>
          (let st2 = st1\<lparr>sel := constrain_sel nb (sel st1)\<rparr>
           in if btn \<noteq> 0 \<and> btn \<noteq> - 1 then
                (let st3 = st2\<lparr>from_idx := scroll_from h (sel st2) (from_idx st2)\<rparr>;
                     r = refresh h dir_refresh st3 (from_idx st3) (sel st3)
                 in Return (fst r) (snd r))
              else Return nb st2))"

text \<open>
  The start of \<^verbatim>\<open>main\<close>, lines 175-194, when \<^verbatim>\<open>filesystem_init\<close> succeeds: the two
  calls of \<^verbatim>\<open>refresh\<close> see the directory as it is at that moment.
\<close>

definition main_start :: "c_int \<Rightarrow> directory \<Rightarrow> machine \<Rightarrow> c_int \<times> machine" where
  "main_start h dir st =
     (let st1 = emit (GL_tty_init GL_MODE_OLED) (st\<lparr>cwd := ''/''\<rparr>);
          r1 = refresh h dir st1 (from_idx st1) (sel st1);
          p = reclamp h (fst r1) (sel (snd r1), from_idx (snd r1));
          st2 = (snd r1)\<lparr>sel := fst p, from_idx := snd p\<rparr>
      in refresh h dir st2 (from_idx st2) (sel st2))"

subsection \<open>Reading a result, and a concrete environment\<close>

fun returns :: "'a result \<Rightarrow> bool" where
  "returns (Return v st) = True"
| "returns (Stop r st) = False"

fun machine_of :: "'a result \<Rightarrow> machine" where
  "machine_of (Return v st) = st"
| "machine_of (Stop r st) = st"

fun returned :: "'a result \<Rightarrow> 'a option" where
  "returned (Return v st) = Some v"
| "returned (Stop r st) = None"

fun stopped :: "'a result \<Rightarrow> stop option" where
  "stopped (Return v st) = None"
| "stopped (Stop r st) = Some r"

text \<open>The machine once line 175 has set the working directory, nothing drawn yet.\<close>

definition initial_machine :: machine where
  "initial_machine = \<lparr>cwd = ''/'', sel = 0, from_idx = 0, trace = []\<rparr>"

text \<open>An environment in which \<^verbatim>\<open>exec\<close> finds no program and comes back every time.\<close>

definition exec_fails :: "string \<Rightarrow> bool" where
  "exec_fails path = True"

subsection \<open>The wording of the specification\<close>

text \<open>
  The specification's words for the executable filter: the length is at least 4 and
  the lowercase suffix matches one of the launchable extensions.
\<close>

definition tolower :: "char \<Rightarrow> char" where
  "tolower c =
     (if 65 \<le> (of_char c :: nat) \<and> (of_char c :: nat) \<le> 90 then char_of ((of_char c :: nat) + 32) else c)"

definition spec_launchable :: "string \<Rightarrow> bool" where
  "spec_launchable filename =
     (4 \<le> length filename \<and>
      map tolower (drop (length filename - 4) filename) \<in> {''.bin'', ''.elf''})"

text \<open>
  The specification's words for the tokenizer: the maximal substrings free of
  separators, in order.  \<open>split_on\<close> cuts the string at every separator; the maximal
  separator-free substrings are the pieces that are not empty.
\<close>

fun split_on :: "(char \<Rightarrow> bool) \<Rightarrow> string \<Rightarrow> string list" where
  "split_on sep [] = [[]]"
| "split_on sep (c # cs) =
     (if sep c then [] # split_on sep cs
      else (case split_on sep cs of [] \<Rightarrow> [[c]] | f # fs \<Rightarrow> (c # f) # fs))"

definition maximal_runs :: "(char \<Rightarrow> bool) \<Rightarrow> string \<Rightarrow> string list" where
  "maximal_runs sep s = filter (\<lambda>t. t \<noteq> []) (split_on sep s)"

definition is_blank :: "char \<Rightarrow> bool" where
  "is_blank c = (c = CHR '' '')"

section \<open>Properties\<close>

subsection \<open>Signed 32-bit arithmetic\<close>

lemma sint_sub_in_range:
  fixes a b :: c_int
  assumes "- (2 ^ 31) \<le> sint a - sint b" "sint a - sint b < 2 ^ 31"
  shows "sint (a - b) = sint a - sint b"
  using assms by (simp add: sint_word_ariths signed_take_bit_int_eq_self)

lemma sint_add_in_range:
  fixes a b :: c_int
  assumes "- (2 ^ 31) \<le> sint a + sint b" "sint a + sint b < 2 ^ 31"
  shows "sint (a + b) = sint a + sint b"
  using assms by (simp add: sint_word_ariths signed_take_bit_int_eq_self)

lemma sint_bounds32:
  fixes a :: c_int
  shows "- (2 ^ 31) \<le> sint a" "sint a < 2 ^ 31"
  using sint_ge [of a] sint_lt [of a] by simp_all

lemma sint_pred:
  fixes nb :: c_int
  assumes "0 \<le> sint nb"
  shows "sint (nb - 1) = sint nb - 1"
  using assms sint_bounds32 [of nb] sint_sub_in_range [of nb 1] by simp

lemma sint_succ:
  fixes s :: c_int
  assumes "sint s < 2 ^ 31 - 1"
  shows "sint (s + 1) = sint s + 1"
  using assms sint_bounds32 [of s] sint_add_in_range [of s 1] by simp

lemma sint_of_nat32:
  assumes "n < 2 ^ 31"
  shows "sint (of_nat n :: c_int) = int n"
proof -
  have "int n < 2 ^ 31" using assms by (metis of_nat_less_iff of_nat_numeral of_nat_power)
  then show ?thesis
    by (simp add: signed_of_nat signed_take_bit_int_eq_self)
qed

lemma constrain_sel_sint:
  assumes "0 \<le> sint nb"
  shows "sint (constrain_sel nb s) =
           (if sint nb \<le> max 0 (sint s) then sint nb - 1 else max 0 (sint s))"
  using assms by (auto simp: constrain_sel_def word_sle_eq word_sless_alt sint_pred max_def)

lemma constrain_sel_idem:
  assumes "0 \<le>s nb"
  shows "constrain_sel nb (constrain_sel nb s) = constrain_sel nb s"
proof -
  from assms have nb: "0 \<le> sint nb" by (simp add: word_sle_eq)
  have "sint (constrain_sel nb (constrain_sel nb s)) = sint (constrain_sel nb s)"
    by (simp add: constrain_sel_sint [OF nb] max_def)
  then show ?thesis by (rule signed_word_eqI)
qed

lemma MAX_MIN_idem: "MAX_int (MIN_int (MAX_int (MIN_int f a) b) a) b = MAX_int (MIN_int f a) b"
  by (auto simp: MAX_int_def MIN_int_def word_sless_alt)

lemma sint_window_low:
  fixes s l :: c_int
  assumes "- 1 \<le> sint s" "0 < sint l"
  shows "sint (s - l + 1) = sint s - sint l + 1"
proof -
  have 1: "sint (s - l) = sint s - sint l"
    using assms sint_bounds32 [of s] sint_bounds32 [of l] by (intro sint_sub_in_range) simp_all
  show ?thesis
    using assms 1 sint_bounds32 [of s] sint_bounds32 [of l] sint_add_in_range [of "s - l" 1] by simp
qed

lemma scroll_from_sint:
  assumes "- 1 \<le> sint s" "0 < sint (LINES h)"
  shows "sint (scroll_from h s f) = max (min (sint f) (sint s)) (sint s - sint (LINES h) + 1)"
  using assms by (auto simp: scroll_from_def MAX_int_def MIN_int_def word_sless_alt sint_window_low)

subsection \<open>Selection and scrolling\<close>

text \<open>
  C1, as the code has it.  For a count \<open>nb \<ge> 0\<close> and a page of at least one line, and
  for any earlier pair \<open>(sel, from)\<close>, the pair that lines 186-193 leave satisfies:
  \<open>0 \<le> sel' < nb\<close> whenever \<open>nb > 0\<close>; \<open>from' \<le> sel' \<le> from' + LINES - 1\<close> (read as
  integers); and \<open>from' \<ge> 0\<close> whenever \<open>nb > 0\<close> and the earlier \<open>from\<close> was not
  negative.  Nothing in the code raises a negative \<open>from\<close> to 0, and with \<open>nb = 0\<close>
  the selection becomes \<open>-1\<close> and \<open>from\<close> follows it.
\<close>

theorem reclamp_invariants:
  assumes "0 \<le>s nb" and "0 <s LINES h"
  shows "(0 <s nb \<longrightarrow> 0 \<le>s fst (reclamp h nb (s, f)) \<and> fst (reclamp h nb (s, f)) <s nb) \<and>
         sint (snd (reclamp h nb (s, f))) \<le> sint (fst (reclamp h nb (s, f))) \<and>
         sint (fst (reclamp h nb (s, f))) \<le> sint (snd (reclamp h nb (s, f))) + sint (LINES h) - 1 \<and>
         (0 <s nb \<and> 0 \<le>s f \<longrightarrow> 0 \<le>s snd (reclamp h nb (s, f)))"
proof -
  from assms have nb: "0 \<le> sint nb" and l: "0 < sint (LINES h)"
    by (simp_all add: word_sle_eq word_sless_alt)
  let ?s = "constrain_sel nb s"
  have s1: "sint ?s = (if sint nb \<le> max 0 (sint s) then sint nb - 1 else max 0 (sint s))"
    by (rule constrain_sel_sint [OF nb])
  then have lo: "- 1 \<le> sint ?s"
    using nb by (simp split: if_splits)
  have f1: "sint (scroll_from h ?s f) = max (min (sint f) (sint ?s)) (sint ?s - sint (LINES h) + 1)"
    by (rule scroll_from_sint [OF lo l])
  have r: "reclamp h nb (s, f) = (?s, scroll_from h ?s f)"
    by (simp add: reclamp_def Let_def)
  show ?thesis
    unfolding r fst_conv snd_conv word_sle_eq word_sless_alt f1
    using s1 l by (auto split: if_splits)
qed

text \<open>
  An instance: 20 entries on a display 64 pixels high (8 lines), the selection moved to
  entry 15 with the window still at the top; the window scrolls to entry 8.
\<close>

theorem reclamp_invariants_witness:
  "0 \<le>s (20 :: c_int) \<and> 0 <s LINES 64 \<and> 0 <s (20 :: c_int) \<and> 0 \<le>s (0 :: c_int) \<and>
   reclamp 64 20 (15, 0) = (15, 8) \<and>
   0 \<le>s fst (reclamp 64 20 (15, 0)) \<and> fst (reclamp 64 20 (15, 0)) <s 20 \<and>
   sint (snd (reclamp 64 20 (15, 0))) \<le> sint (fst (reclamp 64 20 (15, 0))) \<and>
   sint (fst (reclamp 64 20 (15, 0))) \<le> sint (snd (reclamp 64 20 (15, 0))) + sint (LINES 64) - 1 \<and>
   0 \<le>s snd (reclamp 64 20 (15, 0))"
proof -
  have h1: "0 \<le>s (20 :: c_int)" by code_simp
  have h2: "0 <s LINES 64" by code_simp
  have h3: "0 <s (20 :: c_int)" by code_simp
  have h4: "0 \<le>s (0 :: c_int)" by code_simp
  have e: "reclamp 64 20 (15, 0) = (15, 8)" by code_simp
  show ?thesis
    using h1 h2 h3 h4 e reclamp_invariants [OF h1 h2, of 15 0] by blast
qed

text \<open>
  C1 as it is worded asks for \<open>from' \<ge> 0\<close> for every count \<open>nb \<ge> 0\<close> and every earlier
  pair.  With an empty listing (\<open>nb = 0\<close>) and the initial pair \<open>(0, 0)\<close> the code
  leaves \<open>(-1, -1)\<close>.
\<close>

theorem reclamp_counterexample:
  "reclamp 64 0 (0, 0) = (- 1, - 1) \<and> \<not> 0 \<le>s snd (reclamp 64 0 (0, 0))"
  by code_simp

text \<open>
  C2.  For a count \<open>nb \<ge> 0\<close> and any pair \<open>(sel, from)\<close>, applying lines 186-193 to
  their own result, with the same count, changes nothing.
\<close>

theorem reclamp_idempotent:
  "0 \<le>s nb \<Longrightarrow> reclamp h nb (reclamp h nb (s, f)) = reclamp h nb (s, f)"
  by (simp add: reclamp_def scroll_from_def Let_def constrain_sel_idem MAX_MIN_idem)

text \<open>An instance: three entries, selection 9 and window 7 are both pulled back to 2.\<close>

theorem reclamp_idempotent_witness:
  "0 \<le>s (3 :: c_int) \<and> reclamp 64 3 (9, 7) = (2, 2) \<and>
   reclamp 64 3 (reclamp 64 3 (9, 7)) = reclamp 64 3 (9, 7)"
proof -
  have h1: "0 \<le>s (3 :: c_int)" by code_simp
  have e: "reclamp 64 3 (9, 7) = (2, 2)" by code_simp
  show ?thesis
    using h1 e reclamp_idempotent [OF h1, of 64 9 7] by blast
qed

lemma refresh_loop_globals:
  "cwd (snd (refresh_loop h f s cur entries st)) = cwd st \<and>
   sel (snd (refresh_loop h f s cur entries st)) = sel st \<and>
   from_idx (snd (refresh_loop h f s cur entries st)) = from_idx st"
  by (induction entries arbitrary: cur st) (simp_all add: Let_def emit_def)

lemma refresh_globals:
  "cwd (snd (refresh h dir st f s)) = cwd st \<and>
   sel (snd (refresh h dir st f s)) = sel st \<and>
   from_idx (snd (refresh h dir st f s)) = from_idx st"
  by (cases dir) (simp_all add: refresh_def Let_def refresh_loop_globals, simp_all add: emit_def)

lemma sel_after_up:
  "returns (main_turn h e dl inp dr 2 nb st) \<and>
   sel (machine_of (main_turn h e dl inp dr 2 nb st)) = constrain_sel nb (sel st - 1)"
  by (simp add: main_turn_def Let_def refresh_globals)

lemma sel_after_down:
  "returns (main_turn h e dl inp dr 3 nb st) \<and>
   sel (machine_of (main_turn h e dl inp dr 3 nb st)) = constrain_sel nb (sel st + 1)"
  by (simp add: main_turn_def Let_def refresh_globals)

text \<open>
  C7, as the code has it.  The selection is constrained against the count \<open>nb\<close> of
  the refresh before, so the precondition is \<open>nb > 0\<close> together with a selection
  inside the list, \<open>0 \<le> sel < nb\<close>.  Then the turn of the browser loop
  for button 2 (up) returns normally and leaves \<open>sel - 1\<close>, except at \<open>sel = 0\<close> where
  it leaves 0; the turn for button 3 (down) returns normally and leaves \<open>sel + 1\<close>,
  except at \<open>sel = nb - 1\<close> where it leaves \<open>nb - 1\<close>.  Read as integers the new
  selection is \<open>max 0 (sel - 1)\<close> and \<open>min (nb - 1) (sel + 1)\<close>: nothing wraps.
\<close>

theorem directional_move:
  assumes "0 <s nb" and "0 \<le>s sel st" and "sel st <s nb"
  shows "returns (main_turn h e dl inp dr 2 nb st) \<and>
         sel (machine_of (main_turn h e dl inp dr 2 nb st)) = (if sel st = 0 then 0 else sel st - 1) \<and>
         sint (sel (machine_of (main_turn h e dl inp dr 2 nb st))) = max 0 (sint (sel st) - 1) \<and>
         returns (main_turn h e dl inp dr 3 nb st) \<and>
         sel (machine_of (main_turn h e dl inp dr 3 nb st)) = (if sel st = nb - 1 then nb - 1 else sel st + 1) \<and>
         sint (sel (machine_of (main_turn h e dl inp dr 3 nb st))) = min (sint nb - 1) (sint (sel st) + 1)"
proof -
  from assms have nb: "0 < sint nb" and lo: "0 \<le> sint (sel st)" and hi: "sint (sel st) < sint nb"
    by (simp_all add: word_sle_eq word_sless_alt)
  have nb0: "0 \<le> sint nb" using nb by simp
  have p: "sint (sel st - 1) = sint (sel st) - 1"
    using lo by (rule sint_pred)
  have q: "sint (sel st + 1) = sint (sel st) + 1"
    using hi sint_bounds32 [of nb] by (intro sint_succ) simp
  have n1: "sint (nb - 1) = sint nb - 1"
    using nb0 by (rule sint_pred)
  have up: "sint (constrain_sel nb (sel st - 1)) = max 0 (sint (sel st) - 1)"
    using lo hi by (simp add: constrain_sel_sint [OF nb0] p max_def)
  have down: "sint (constrain_sel nb (sel st + 1)) = min (sint nb - 1) (sint (sel st) + 1)"
    using lo hi by (simp add: constrain_sel_sint [OF nb0] q max_def min_def)
  have up': "constrain_sel nb (sel st - 1) = (if sel st = 0 then 0 else sel st - 1)"
  proof (rule signed_word_eqI)
    show "sint (constrain_sel nb (sel st - 1)) = sint (if sel st = 0 then 0 else sel st - 1)"
    proof (cases "sel st = 0")
      case True
      then show ?thesis using up by simp
    next
      case False
      then have "sint (sel st) \<noteq> 0" by (metis signed_word_eqI sint_0)
      with lo False show ?thesis using up p by simp
    qed
  qed
  have down': "constrain_sel nb (sel st + 1) = (if sel st = nb - 1 then nb - 1 else sel st + 1)"
  proof (rule signed_word_eqI)
    show "sint (constrain_sel nb (sel st + 1)) = sint (if sel st = nb - 1 then nb - 1 else sel st + 1)"
    proof (cases "sel st = nb - 1")
      case True
      then show ?thesis using down n1 by simp
    next
      case False
      then have "sint (sel st) \<noteq> sint (nb - 1)" by (metis signed_word_eqI)
      with hi False show ?thesis using down q n1 by simp
    qed
  qed
  show ?thesis
    using sel_after_up [of h e dl inp dr nb st] sel_after_down [of h e dl inp dr nb st] up down up' down'
    by simp
qed

text \<open>
  Instances on a list of three entries: from the middle entry the selection moves to 0
  and to 2; at entry 0 up leaves 0 and down gives 1; at entry 2 up gives 1 and down
  leaves 2.
\<close>

theorem directional_move_witness:
  "0 <s (3 :: c_int) \<and>
   0 \<le>s sel (initial_machine\<lparr>sel := 1\<rparr>) \<and> sel (initial_machine\<lparr>sel := 1\<rparr>) <s 3 \<and>
   returns (main_turn 64 exec_fails None [] (Some [''a.bin'', ''b.bin'', ''c.elf'']) 2 3 (initial_machine\<lparr>sel := 1\<rparr>)) \<and>
   sel (machine_of (main_turn 64 exec_fails None [] (Some [''a.bin'', ''b.bin'', ''c.elf'']) 2 3 (initial_machine\<lparr>sel := 1\<rparr>))) = 0 \<and>
   returns (main_turn 64 exec_fails None [] (Some [''a.bin'', ''b.bin'', ''c.elf'']) 3 3 (initial_machine\<lparr>sel := 1\<rparr>)) \<and>
   sel (machine_of (main_turn 64 exec_fails None [] (Some [''a.bin'', ''b.bin'', ''c.elf'']) 3 3 (initial_machine\<lparr>sel := 1\<rparr>))) = 2 \<and>
   0 \<le>s sel (initial_machine\<lparr>sel := 0\<rparr>) \<and> sel (initial_machine\<lparr>sel := 0\<rparr>) <s 3 \<and>
   sel (machine_of (main_turn 64 exec_fails None [] (Some [''a.bin'', ''b.bin'', ''c.elf'']) 2 3 (initial_machine\<lparr>sel := 0\<rparr>))) = 0 \<and>
   sel (machine_of (main_turn 64 exec_fails None [] (Some [''a.bin'', ''b.bin'', ''c.elf'']) 3 3 (initial_machine\<lparr>sel := 0\<rparr>))) = 1 \<and>
   0 \<le>s sel (initial_machine\<lparr>sel := 2\<rparr>) \<and> sel (initial_machine\<lparr>sel := 2\<rparr>) <s 3 \<and>
   sel (machine_of (main_turn 64 exec_fails None [] (Some [''a.bin'', ''b.bin'', ''c.elf'']) 2 3 (initial_machine\<lparr>sel := 2\<rparr>))) = 1 \<and>
   sel (machine_of (main_turn 64 exec_fails None [] (Some [''a.bin'', ''b.bin'', ''c.elf'']) 3 3 (initial_machine\<lparr>sel := 2\<rparr>))) = 2"
proof -
  let ?d = "Some [''a.bin'', ''b.bin'', ''c.elf'']"
  have n: "0 <s (3 :: c_int)" by (simp add: word_sless_alt)
  have a1: "0 \<le>s sel (initial_machine\<lparr>sel := 1\<rparr>)" by (simp add: word_sle_eq)
  have b1: "sel (initial_machine\<lparr>sel := 1\<rparr>) <s 3" by (simp add: word_sless_alt)
  have a0: "0 \<le>s sel (initial_machine\<lparr>sel := 0\<rparr>)" by (simp add: word_sle_eq)
  have b0: "sel (initial_machine\<lparr>sel := 0\<rparr>) <s 3" by (simp add: word_sless_alt)
  have a2: "0 \<le>s sel (initial_machine\<lparr>sel := 2\<rparr>)" by (simp add: word_sle_eq)
  have b2: "sel (initial_machine\<lparr>sel := 2\<rparr>) <s 3" by (simp add: word_sless_alt)
  show ?thesis
    using n a1 b1 a0 b0 a2 b2
      directional_move [OF n a1 b1, of 64 exec_fails None "[]" ?d]
      directional_move [OF n a0 b0, of 64 exec_fails None "[]" ?d]
      directional_move [OF n a2 b2, of 64 exec_fails None "[]" ?d]
    by simp
qed

text \<open>
  C7 as it is worded asks only for \<open>nb > 0\<close>.  The code does not keep the selection
  below the count between turns: with 20 entries and entry 15 selected, one turn for
  button 2 during which the card was replaced by one with three files leaves the
  selection at 14 and the count at 3.  In that state both buttons take the selection
  from 14 to 2, neither a step of one nor a stay at a boundary.
\<close>

theorem directional_move_counterexample:
  "0 \<le>s sel (initial_machine\<lparr>sel := 15, from_idx := 8\<rparr>) \<and>
   sel (initial_machine\<lparr>sel := 15, from_idx := 8\<rparr>) <s 20 \<and>
   returned (main_turn 64 exec_fails None [] (Some [''a.bin'', ''b.bin'', ''c.elf'']) 2 20
               (initial_machine\<lparr>sel := 15, from_idx := 8\<rparr>)) = Some 3 \<and>
   sel (machine_of (main_turn 64 exec_fails None [] (Some [''a.bin'', ''b.bin'', ''c.elf'']) 2 20
               (initial_machine\<lparr>sel := 15, from_idx := 8\<rparr>))) = 14 \<and>
   0 <s (3 :: c_int) \<and>
   sel (machine_of (main_turn 64 exec_fails None [] (Some [''a.bin'', ''b.bin'', ''c.elf'']) 2 3
               (initial_machine\<lparr>sel := 14\<rparr>))) = 2 \<and>
   sel (machine_of (main_turn 64 exec_fails None [] (Some [''a.bin'', ''b.bin'', ''c.elf'']) 3 3
               (initial_machine\<lparr>sel := 14\<rparr>))) = 2"
  by code_simp

subsection \<open>The executable filter\<close>

lemma drop_suffix_iff:
  assumes "4 \<le> length filename" "length ext = 4"
  shows "drop (length filename - 4) filename = ext \<longleftrightarrow> (\<exists>stem. filename = stem @ ext)"
proof
  assume "drop (length filename - 4) filename = ext"
  then have "filename = take (length filename - 4) filename @ ext"
    by (metis append_take_drop_id)
  then show "\<exists>stem. filename = stem @ ext" ..
next
  assume "\<exists>stem. filename = stem @ ext"
  then obtain stem where "filename = stem @ ext" ..
  with assms show "drop (length filename - 4) filename = ext" by simp
qed

lemma is_executable_iff:
  "is_executable filename \<longleftrightarrow>
     4 \<le> length filename \<and> (\<exists>stem. filename = stem @ ''.bin'' \<or> filename = stem @ ''.elf'')"
proof (cases "4 \<le> length filename")
  case True
  then have n: "nat (int (length filename) - 4) = length filename - 4" by simp
  show ?thesis
    using True drop_suffix_iff [OF True, of "''.bin''"] drop_suffix_iff [OF True, of "''.elf''"]
    by (auto simp: is_executable_def Let_def n)
next
  case False
  then show ?thesis by (simp add: is_executable_def Let_def)
qed

text \<open>
  C3, as the code has it.  \<open>is_executable\<close> is a total function of the file name and
  is true exactly when the name has at least 4 characters and ends in \<open>.bin\<close> or
  \<open>.elf\<close>, compared character by character (\<^verbatim>\<open>strcmp\<close>): nothing is converted to
  lower case.  So \<open>game.bin\<close> and \<open>game.elf\<close> are launchable; \<open>readme.txt\<close>, \<open>a.bi\<close>,
  every name shorter than 4 characters and also \<open>GAME.BIN\<close> are not.
\<close>

theorem is_executable_suffix:
  "(is_executable filename \<longleftrightarrow>
      4 \<le> length filename \<and> (\<exists>stem. filename = stem @ ''.bin'' \<or> filename = stem @ ''.elf'')) \<and>
   is_executable ''game.bin'' \<and> is_executable ''game.elf'' \<and>
   \<not> is_executable ''readme.txt'' \<and> \<not> is_executable ''a.bi'' \<and>
   (\<forall>s. length s < 4 \<longrightarrow> \<not> is_executable s) \<and>
   \<not> is_executable ''GAME.BIN''"
proof -
  have "is_executable ''game.bin''" "is_executable ''game.elf''"
    "\<not> is_executable ''readme.txt''" "\<not> is_executable ''a.bi''" "\<not> is_executable ''GAME.BIN''"
    by (simp_all add: is_executable_def)
  moreover have "\<forall>s. length s < 4 \<longrightarrow> \<not> is_executable s"
    by (simp add: is_executable_def Let_def)
  ultimately show ?thesis
    using is_executable_iff [of filename] by blast
qed

text \<open>An instance of a name shorter than 4 characters.\<close>

theorem is_executable_suffix_witness:
  "length ''bin'' < 4 \<and> \<not> is_executable ''bin''"
proof -
  have "\<forall>s. length s < 4 \<longrightarrow> \<not> is_executable s"
    using is_executable_suffix [of "''x''"] by blast
  then show ?thesis by simp
qed

text \<open>
  C3 as it is worded compares the lowercase suffix with the extensions: the suffix of
  \<open>GAME.BIN\<close> in lower case is \<open>.bin\<close>, yet the code does not accept the name.
\<close>

theorem is_executable_counterexample:
  "spec_launchable ''GAME.BIN'' \<and> \<not> is_executable ''GAME.BIN''"
  by code_simp

subsection \<open>The directory page\<close>

lemma refresh_loop_count:
  "fst (refresh_loop h f s cur entries st) = cur + of_nat (length (filter is_executable entries))"
  by (induction entries arbitrary: cur st) (simp_all add: Let_def)

text \<open>
  C5.  When the directory cannot be opened \<open>refresh\<close> clears the screen and returns
  0; it is an ordinary return.  Otherwise it returns the number of entries that pass
  the executable filter, whatever the window \<open>from\<close> and the selection: as a 32-bit
  value it is that number modulo \<open>2^32\<close>, and it is that number itself whenever the
  number fits an \<^verbatim>\<open>int\<close>.
\<close>

theorem refresh_total_count:
  "refresh h None st f s = (0, emit GL_clear (emit (GL_tty_goto_xy 0 0) st)) \<and>
   fst (refresh h (Some entries) st f s) = of_nat (length (filter is_executable entries)) \<and>
   (length (filter is_executable entries) < 2 ^ 31 \<longrightarrow>
      sint (fst (refresh h (Some entries) st f s)) = int (length (filter is_executable entries)))"
  by (simp add: refresh_def Let_def refresh_loop_count sint_of_nat32)

text \<open>An instance: three entries, two of them launchable.\<close>

theorem refresh_total_count_witness:
  "length (filter is_executable [''game.bin'', ''readme.txt'', ''x.elf'']) < 2 ^ 31 \<and>
   sint (fst (refresh 64 (Some [''game.bin'', ''readme.txt'', ''x.elf'']) initial_machine 0 0)) = 2"
proof -
  have f: "filter is_executable [''game.bin'', ''readme.txt'', ''x.elf''] = [''game.bin'', ''x.elf'']"
    by (simp add: is_executable_def)
  have h: "length (filter is_executable [''game.bin'', ''readme.txt'', ''x.elf'']) < 2 ^ 31"
    unfolding f by simp
  with refresh_total_count [of 64 initial_machine 0 0 "[''game.bin'', ''readme.txt'', ''x.elf'']"]
  have "sint (fst (refresh 64 (Some [''game.bin'', ''readme.txt'', ''x.elf'']) initial_machine 0 0)) =
        int (length (filter is_executable [''game.bin'', ''readme.txt'', ''x.elf'']))"
    by blast
  then have "sint (fst (refresh 64 (Some [''game.bin'', ''readme.txt'', ''x.elf'']) initial_machine 0 0)) = 2"
    unfolding f by simp
  with h show ?thesis by blast
qed

subsection \<open>The launcher\<close>

lemma call_exec_loop_miss:
  "(\<forall>k < length (filter is_executable entries). cur + of_nat k \<noteq> s) \<Longrightarrow>
   call_exec_loop e s cur entries st = Return () st"
proof (induction entries arbitrary: cur)
  case Nil
  then show ?case by simp
next
  case (Cons filename rest)
  show ?case
  proof (cases "is_executable filename")
    case False
    with Cons show ?thesis by simp
  next
    case True
    let ?n = "length (filter is_executable rest)"
    from True Cons.prems have all: "\<forall>k < Suc ?n. cur + of_nat k \<noteq> s" by simp
    then have "cur + of_nat 0 \<noteq> s" by blast
    then have ne: "cur \<noteq> s" by simp
    have "\<forall>k < ?n. (cur + 1) + of_nat k \<noteq> s"
    proof (intro allI impI)
      fix k assume "k < ?n"
      then have "cur + of_nat (Suc k) \<noteq> s" using all by blast
      then show "(cur + 1) + of_nat k \<noteq> s" by (simp add: add.assoc)
    qed
    then have "call_exec_loop e s (cur + 1) rest st = Return () st"
      by (rule Cons.IH)
    with True ne show ?thesis by simp
  qed
qed

lemma of_nat_ne_out_of_range:
  fixes s :: c_int
  assumes "n < 2 ^ 31" "k < n" "s <s 0 \<or> int n \<le> sint s"
  shows "of_nat k \<noteq> s"
proof
  assume "of_nat k = s"
  moreover have "sint (of_nat k :: c_int) = int k"
    using assms by (intro sint_of_nat32) simp
  ultimately have "sint s = int k" by simp
  with assms show False by (auto simp: word_sless_alt)
qed

text \<open>
  C6.  When the directory cannot be opened, and when \<open>sel\<close> is negative or at least
  the number of launchable entries (a number that fits an \<^verbatim>\<open>int\<close>), \<open>call_exec\<close>
  returns to its caller with the machine as it was: no \<^verbatim>\<open>exec\<close>, no other call.
\<close>

theorem call_exec_out_of_range:
  "call_exec e None st s = Return () st \<and>
   (length (filter is_executable entries) < 2 ^ 31 \<and>
    (s <s 0 \<or> int (length (filter is_executable entries)) \<le> sint s) \<longrightarrow>
      call_exec e (Some entries) st s = Return () st)"
proof -
  have "call_exec e (Some entries) st s = Return () st"
    if "length (filter is_executable entries) < 2 ^ 31"
      and "s <s 0 \<or> int (length (filter is_executable entries)) \<le> sint s"
  proof -
    have "\<forall>k < length (filter is_executable entries). 0 + of_nat k \<noteq> s"
      using of_nat_ne_out_of_range [OF that(1) _ that(2)] by simp
    then show ?thesis
      by (simp add: call_exec_def call_exec_loop_miss)
  qed
  then show ?thesis
    by (simp add: call_exec_def)
qed

text \<open>An instance: two launchable entries, and the selection at index 2.\<close>

theorem call_exec_out_of_range_witness:
  "length (filter is_executable [''game.bin'', ''readme.txt'', ''x.elf'']) < 2 ^ 31 \<and>
   int (length (filter is_executable [''game.bin'', ''readme.txt'', ''x.elf''])) \<le> sint (2 :: c_int) \<and>
   call_exec exec_fails (Some [''game.bin'', ''readme.txt'', ''x.elf'']) initial_machine 2 =
     Return () initial_machine"
proof -
  have f: "filter is_executable [''game.bin'', ''readme.txt'', ''x.elf''] = [''game.bin'', ''x.elf'']"
    by (simp add: is_executable_def)
  have h: "length (filter is_executable [''game.bin'', ''readme.txt'', ''x.elf'']) < 2 ^ 31 \<and>
           int (length (filter is_executable [''game.bin'', ''readme.txt'', ''x.elf''])) \<le> sint (2 :: c_int)"
    unfolding f by simp
  show ?thesis
    using h call_exec_out_of_range [of exec_fails initial_machine 2 "[''game.bin'', ''readme.txt'', ''x.elf'']"]
    by blast
qed

subsection \<open>The tokenizer\<close>

lemma is_blank_fun: "(\<lambda>c. c = CHR '' '') = is_blank" "(\<lambda>c. c \<noteq> CHR '' '') = (\<lambda>c. \<not> is_blank c)"
  by (simp_all add: fun_eq_iff is_blank_def)

lemma split_on_decomp:
  "split_on sep s =
     takeWhile (\<lambda>c. \<not> sep c) s #
       (case dropWhile (\<lambda>c. \<not> sep c) s of [] \<Rightarrow> [] | d # r \<Rightarrow> split_on sep r)"
  by (induction s) simp_all

lemma split_on_free: "t \<in> set (split_on sep s) \<Longrightarrow> \<forall>c \<in> set t. \<not> sep c"
proof (induction s arbitrary: t)
  case Nil
  then show ?case by simp
next
  case (Cons a s)
  show ?case
  proof (cases "sep a")
    case True
    with Cons show ?thesis by auto
  next
    case False
    obtain f fs where fs: "split_on sep s = f # fs"
      using split_on_decomp [of sep s] by blast
    with False Cons.prems have "t = a # f \<or> t \<in> set fs" by simp
    then show ?thesis
    proof
      assume t: "t = a # f"
      have "f \<in> set (split_on sep s)" using fs by simp
      then have "\<forall>c \<in> set f. \<not> sep c" by (rule Cons.IH)
      with t False show ?thesis by simp
    next
      assume "t \<in> set fs"
      then have "t \<in> set (split_on sep s)" using fs by simp
      then show ?thesis by (rule Cons.IH)
    qed
  qed
qed

lemma maximal_runs_skip: "maximal_runs sep (dropWhile sep s) = maximal_runs sep s"
  by (induction s) (simp_all add: maximal_runs_def)

lemma maximal_runs_token:
  assumes "s \<noteq> []" "\<not> sep (hd s)"
  shows "maximal_runs sep s =
           takeWhile (\<lambda>c. \<not> sep c) s # maximal_runs sep (drop 1 (dropWhile (\<lambda>c. \<not> sep c) s))"
proof -
  let ?tw = "takeWhile (\<lambda>c. \<not> sep c) s" and ?dw = "dropWhile (\<lambda>c. \<not> sep c) s"
  from assms have ne: "?tw \<noteq> []"
    by (cases s) simp_all
  have d: "split_on sep s = ?tw # (case ?dw of [] \<Rightarrow> [] | d # r \<Rightarrow> split_on sep r)"
    by (rule split_on_decomp)
  have "filter (\<lambda>t. t \<noteq> []) (case ?dw of [] \<Rightarrow> [] | d # r \<Rightarrow> split_on sep r) =
        maximal_runs sep (drop 1 ?dw)"
    by (cases ?dw) (simp_all only: list.case drop_Suc_Cons drop_0 drop_Nil One_nat_def maximal_runs_def split_on.simps filter.simps, simp_all)
  with ne show ?thesis
    by (simp only: maximal_runs_def [of sep s] d filter.simps not_False_eq_True if_True)
qed

lemma strtok_None: "strtok s = None \<Longrightarrow> maximal_runs is_blank s = []"
proof -
  assume "strtok s = None"
  then have "dropWhile is_blank s = []"
    by (simp add: strtok_def Let_def is_blank_fun split: if_splits)
  then have "maximal_runs is_blank (dropWhile is_blank s) = maximal_runs is_blank []"
    by (rule arg_cong)
  also have "\<dots> = []"
    by (simp add: maximal_runs_def)
  finally show ?thesis by (simp only: maximal_runs_skip)
qed

lemma strtok_Some:
  assumes "strtok s = Some (ptr, s')"
  shows "maximal_runs is_blank s = ptr # maximal_runs is_blank s'"
proof -
  let ?s1 = "dropWhile is_blank s"
  from assms have ne: "?s1 \<noteq> []"
    and p: "ptr = takeWhile (\<lambda>c. \<not> is_blank c) ?s1"
    and s': "s' = drop 1 (dropWhile (\<lambda>c. \<not> is_blank c) ?s1)"
    by (auto simp: strtok_def Let_def is_blank_fun split: if_splits)
  from ne have "\<not> is_blank (hd ?s1)" by (rule hd_dropWhile)
  with ne have "maximal_runs is_blank ?s1 = ptr # maximal_runs is_blank s'"
    unfolding p s' by (rule maximal_runs_token)
  then show ?thesis by (simp add: maximal_runs_skip)
qed

lemma tokenize_loop_runs:
  "length argv \<le> 100 \<Longrightarrow>
   tokenize_loop argv s =
     (if length argv + length (maximal_runs is_blank s) \<le> 100
      then Some (argv @ maximal_runs is_blank s) else None)"
proof (induction argv s rule: tokenize_loop.induct)
  case (1 argv s)
  show ?case
  proof (cases "strtok s")
    case None
    with "1.prems" show ?thesis
      by (subst tokenize_loop.simps) (simp add: strtok_None)
  next
    case (Some a)
    obtain ptr s' where a: "a = (ptr, s')" by (cases a)
    with Some have st: "strtok s = Some (ptr, s')" by simp
    have runs: "maximal_runs is_blank s = ptr # maximal_runs is_blank s'"
      using st by (rule strtok_Some)
    show ?thesis
    proof (cases "100 \<le> length argv")
      case True
      with st runs show ?thesis
        by (subst tokenize_loop.simps) simp
    next
      case False
      then have "length (argv @ [ptr]) \<le> 100" by simp
      with "1.IH" [OF st [unfolded a [symmetric]] _ False] st a False
      have "tokenize_loop (argv @ [ptr]) s' =
              (if length (argv @ [ptr]) + length (maximal_runs is_blank s') \<le> 100
               then Some ((argv @ [ptr]) @ maximal_runs is_blank s') else None)"
        by simp
      with st runs False show ?thesis
        by (subst tokenize_loop.simps) simp
    qed
  qed
qed

lemma runs_blank: "maximal_runs is_blank (replicate n CHR '' '') = []"
  by (induction n) (simp_all add: maximal_runs_def is_blank_def)

lemma c_string_blank: "c_string (replicate n CHR '' '') = replicate n CHR '' ''"
  by (induction n) (simp_all add: c_string_def)

lemma runs_nonempty_free:
  "\<forall>t \<in> set (maximal_runs is_blank s). t \<noteq> [] \<and> CHR '' '' \<notin> set t"
proof
  fix t assume "t \<in> set (maximal_runs is_blank s)"
  then have ne: "t \<noteq> []" and "t \<in> set (split_on is_blank s)"
    by (simp_all add: maximal_runs_def)
  then have "\<forall>c \<in> set t. \<not> is_blank c" by (simp add: split_on_free)
  then have "CHR '' '' \<notin> set t" by (auto simp: is_blank_def)
  with ne show "t \<noteq> [] \<and> CHR '' '' \<notin> set t" by simp
qed

lemma tokenize_blank: "tokenize_loop [] (c_string (replicate n CHR '' '')) = Some []"
  by (simp add: tokenize_loop_runs c_string_blank runs_blank)

lemma shell_exec_Nil: "shell_exec e st [] = Return 1 st"
  by (simp add: shell_exec_def)

text \<open>
  C4, as the code has it.  The separator is the space character alone.  Whenever the
  command line (up to its first NUL) holds at most 100 maximal space-free substrings,
  the loop stores exactly these, in order; each is non-empty and free of spaces.
  \<open>mode 2\<close> gives the two tokens \<open>mode\<close> and \<open>2\<close>.  An empty line or a line of spaces
  gives no token; dispatching no token returns 1 and changes nothing, and the shell
  prints a new prompt and goes on editing an empty line.
\<close>

theorem tokenize_on_spaces:
  "(length (maximal_runs is_blank (c_string buf)) \<le> 100 \<longrightarrow>
      tokenize_loop [] (c_string buf) = Some (maximal_runs is_blank (c_string buf))) \<and>
   (\<forall>t \<in> set (maximal_runs is_blank (c_string buf)). t \<noteq> [] \<and> CHR '' '' \<notin> set t) \<and>
   tokenize_loop [] (c_string ''mode 2'') = Some [''mode'', ''2''] \<and>
   tokenize_loop [] (c_string (replicate n CHR '' '')) = Some [] \<and>
   shell_exec e st [] = Return 1 st \<and>
   (c = 10 \<or> c = 13 \<longrightarrow>
      shell_turn e st (replicate n CHR '' '') c =
        Return (Line_editing []) (emit (Putchar CHR '']'') (emit (Putchar newline) st)))"
proof -
  have 1: "length (maximal_runs is_blank (c_string buf)) \<le> 100 \<longrightarrow>
      tokenize_loop [] (c_string buf) = Some (maximal_runs is_blank (c_string buf))"
    by (simp add: tokenize_loop_runs)
  have "maximal_runs is_blank (c_string ''mode 2'') = [''mode'', ''2'']"
    by (simp add: maximal_runs_def c_string_def is_blank_def)
  then have 2: "tokenize_loop [] (c_string ''mode 2'') = Some [''mode'', ''2'']"
    by (simp add: tokenize_loop_runs)
  have 3: "c = 10 \<or> c = 13 \<longrightarrow>
      shell_turn e st (replicate n CHR '' '') c =
        Return (Line_editing []) (emit (Putchar CHR '']'') (emit (Putchar newline) st))"
    by (auto simp: shell_turn_def tokenize_blank shell_exec_Nil)
  from 1 2 3 show ?thesis
    using runs_nonempty_free [of "c_string buf"] tokenize_blank [of n] shell_exec_Nil [of e st]
    by blast
qed

text \<open>An instance with runs of several spaces, and a line of three spaces.\<close>

theorem tokenize_on_spaces_witness:
  "length (maximal_runs is_blank (c_string ''  mode   2  '')) \<le> 100 \<and>
   tokenize_loop [] (c_string ''  mode   2  '') = Some [''mode'', ''2''] \<and>
   ''mode'' \<noteq> [] \<and> CHR '' '' \<notin> set ''mode'' \<and> ''2'' \<noteq> [] \<and> CHR '' '' \<notin> set ''2'' \<and>
   shell_turn exec_fails initial_machine (replicate 3 CHR '' '') 13 =
     Return (Line_editing []) (emit (Putchar CHR '']'') (emit (Putchar newline) initial_machine))"
proof -
  have r: "maximal_runs is_blank (c_string ''  mode   2  '') = [''mode'', ''2'']"
    by (simp add: maximal_runs_def c_string_def is_blank_def)
  then have h: "length (maximal_runs is_blank (c_string ''  mode   2  '')) \<le> 100"
    by simp
  show ?thesis
    using h tokenize_on_spaces [where buf = "''  mode   2  ''" and n = 3 and c = 13
        and e = exec_fails and st = initial_machine]
    unfolding r by simp
qed

text \<open>
  C4 as it is worded splits on white space.  A line that holds one tab is all white
  space, so it has no maximal whitespace-free substring; the code finds one token in
  it, the tab.
\<close>

theorem tokenize_whitespace_counterexample:
  "isspace (CHR 0x09) \<and> maximal_runs isspace [CHR 0x09] = [] \<and>
   tokenize_loop [] (c_string [CHR 0x09]) = Some [[CHR 0x09]]"
  by code_simp

subsection \<open>The builtins \<open>mode\<close> and \<open>font\<close>\<close>

text \<open>
  C8.  When the first token is \<open>mode\<close> or \<open>font\<close> and the number of tokens is not 2
  (the number of arguments is not 1), \<open>shell_exec\<close> prints the message about the
  number of arguments and returns 1, the signal to go on: the only change to the
  machine is that one line of output, so no display call is made and \<open>cwd\<close>, \<open>sel\<close>
  and \<open>from\<close> are as before.  The shell then prints its prompt and edits an empty line.
\<close>

theorem mode_font_argument_count:
  assumes "argv \<noteq> []" and "argv ! 0 = ''mode'' \<or> argv ! 0 = ''font''" and "length argv \<noteq> 2"
  shows "shell_exec e st argv =
           Return 1 (st\<lparr>trace := trace st @ [Printf ''invalid number of arguments'']\<rparr>) \<and>
         (tokenize_loop [] (c_string buf) = Some argv \<and> (c = 10 \<or> c = 13) \<longrightarrow>
            shell_turn e st buf c =
              Return (Line_editing [])
                (st\<lparr>trace := trace st @ [Printf ''invalid number of arguments'', Putchar newline, Putchar CHR '']'']\<rparr>))"
proof -
  have x: "shell_exec e st argv =
           Return 1 (st\<lparr>trace := trace st @ [Printf ''invalid number of arguments'']\<rparr>)"
    using assms by (auto simp: shell_exec_def Let_def emit_def)
  then show ?thesis
    by (auto simp: shell_turn_def emit_def)
qed

text \<open>An instance: \<open>font\<close> with two arguments.\<close>

theorem mode_font_argument_count_witness:
  "[''font'', ''1'', ''2''] \<noteq> [] \<and> [''font'', ''1'', ''2''] ! 0 = ''font'' \<and>
   length [''font'', ''1'', ''2''] \<noteq> 2 \<and>
   tokenize_loop [] (c_string ''font 1 2'') = Some [''font'', ''1'', ''2''] \<and>
   shell_exec exec_fails initial_machine [''font'', ''1'', ''2''] =
     Return 1 (initial_machine\<lparr>trace := trace initial_machine @ [Printf ''invalid number of arguments'']\<rparr>) \<and>
   shell_turn exec_fails initial_machine ''font 1 2'' 10 =
     Return (Line_editing [])
       (initial_machine\<lparr>trace := trace initial_machine @
          [Printf ''invalid number of arguments'', Putchar newline, Putchar CHR '']'']\<rparr>)"
proof -
  have h1: "[''font'', ''1'', ''2''] \<noteq> []" by simp
  have h2: "[''font'', ''1'', ''2''] ! 0 = ''mode'' \<or> [''font'', ''1'', ''2''] ! 0 = ''font''" by simp
  have h3: "length [''font'', ''1'', ''2''] \<noteq> 2" by simp
  have t: "tokenize_loop [] (c_string ''font 1 2'') = Some [''font'', ''1'', ''2'']"
    by code_simp
  show ?thesis
    using t mode_font_argument_count [OF h1 h2 h3, where buf = "''font 1 2''" and c = 10
        and e = exec_fails and st = initial_machine]
    by simp
qed

text \<open>
  C9, as the code has it.  \<open>font n\<close> with one argument whose value is not 0, 1, 2 or
  3 prints nothing and selects no font, and returns 1; but the branch first calls
  \<^verbatim>\<open>GL_tty_init(FGA_mode)\<close>, before it looks at the index, and that call is the one
  effect of the command.
\<close>

theorem font_unrecognised_index:
  assumes "length argv = 2" and "argv ! 0 = ''font''" and "atoi (argv ! 1) \<notin> {0, 1, 2, 3}"
  shows "shell_exec e st argv = Return 1 (st\<lparr>trace := trace st @ [GL_tty_init FGA_mode]\<rparr>)"
  using assms by (auto simp: shell_exec_def Let_def emit_def)

text \<open>An instance: \<open>font 7\<close>.\<close>

theorem font_unrecognised_index_witness:
  "length [''font'', ''7''] = 2 \<and> [''font'', ''7''] ! 0 = ''font'' \<and>
   atoi ([''font'', ''7''] ! 1) \<notin> {0, 1, 2, 3} \<and>
   shell_exec exec_fails initial_machine [''font'', ''7''] =
     Return 1 (initial_machine\<lparr>trace := trace initial_machine @ [GL_tty_init FGA_mode]\<rparr>)"
proof -
  have h1: "length [''font'', ''7''] = 2" by simp
  have h2: "[''font'', ''7''] ! 0 = ''font''" by simp
  have a: "atoi ''7'' = 7" by code_simp
  have h3: "atoi ([''font'', ''7''] ! 1) \<notin> {0, 1, 2, 3}" by (simp add: a)
  show ?thesis
    using h1 h2 h3 font_unrecognised_index [OF h1 h2 h3, of exec_fails initial_machine]
    by blast
qed

text \<open>
  C9 as it is worded has no display call at all for an index that is not recognised.
  For \<open>font 7\<close> the trace of display calls is not empty.
\<close>

theorem font_unrecognised_counterexample:
  "atoi ''7'' = 7 \<and>
   trace (machine_of (shell_exec exec_fails initial_machine [''font'', ''7''])) = [GL_tty_init FGA_mode] \<and>
   trace (machine_of (shell_exec exec_fails initial_machine [''font'', ''7''])) \<noteq> trace initial_machine"
  by code_simp

subsection \<open>The size of \<^verbatim>\<open>argv\<close>\<close>

lemma shell_loop_typed:
  "\<forall>c \<in> set cs. (of_char c :: int) \<noteq> 10 \<and> (of_char c :: int) \<noteq> 13 \<Longrightarrow>
   length buf + length cs \<le> PATH_LEN - 2 \<Longrightarrow>
   shell_loop e st buf (map of_char cs @ rest) =
     shell_loop e (st\<lparr>trace := trace st @ map Putchar cs\<rparr>) (buf @ cs) rest"
proof (induction cs arbitrary: st buf)
  case Nil
  then show ?case by simp
next
  case (Cons c cs)
  from Cons.prems have c: "(of_char c :: int) \<noteq> 10" "(of_char c :: int) \<noteq> 13"
    and room: "length buf < PATH_LEN - 2" by simp_all
  then have turn: "shell_turn e st buf (of_char c) =
      Return (Line_editing (buf @ [c])) (st\<lparr>trace := trace st @ [Putchar c]\<rparr>)"
    by (simp add: shell_turn_def Let_def emit_def)
  have "shell_loop e (st\<lparr>trace := trace st @ [Putchar c]\<rparr>) (buf @ [c]) (map of_char cs @ rest) =
        shell_loop e (st\<lparr>trace := trace st @ [Putchar c]\<rparr>\<lparr>trace := trace (st\<lparr>trace := trace st @ [Putchar c]\<rparr>) @ map Putchar cs\<rparr>)
          ((buf @ [c]) @ cs) rest"
    using Cons.prems by (intro Cons.IH) simp_all
  with turn show ?case by simp
qed

lemma runs_of_letters:
  "maximal_runs is_blank (concat (replicate n ''a '') @ ''a'') = replicate (Suc n) ''a''"
  by (induction n) (simp_all add: maximal_runs_def is_blank_def)

lemma length_letters: "length (concat (replicate n ''a '') @ ''a'') = 2 * n + 1"
  by (induction n) simp_all

lemma set_letters: "set (concat (replicate n ''a '') @ ''a'') \<subseteq> {CHR ''a'', CHR '' ''}"
  by (induction n) auto

lemma c_string_letters:
  "c_string (concat (replicate n ''a '') @ ''a'') = concat (replicate n ''a '') @ ''a''"
  unfolding c_string_def using set_letters [of n] by (intro takeWhile_eq_all_conv [THEN iffD2]) auto

text \<open>
  C10.  The line editor stores up to 253 characters, and 201 characters are enough for
  101 tokens: the letter \<open>a\<close> 101 times, with one space between neighbours.  On that
  line the tokenizing loop reaches \<^verbatim>\<open>argv[100]\<close>, outside the array of 100 pointers.
\<close>

theorem argv_overrun_at_101_tokens:
  "length (concat (replicate 100 ''a '') @ ''a'') = 201 \<and>
   201 \<le> PATH_LEN - 2 \<and>
   tokenize_loop [] (c_string (concat (replicate 100 ''a '') @ ''a'')) = None \<and>
   stopped (shell_loop exec_fails initial_machine []
              (map of_char (concat (replicate 100 ''a '') @ ''a'') @ [10])) = Some Argv_overrun"
proof -
  let ?line = "concat (replicate 100 ''a '') @ ''a''"
  have len: "length ?line = 201"
    using length_letters [of 100] by simp
  have tok: "tokenize_loop [] (c_string ?line) = None"
    by (simp add: tokenize_loop_runs c_string_letters runs_of_letters del: replicate.simps)
  have ok: "\<forall>c \<in> set ?line. (of_char c :: int) \<noteq> 10 \<and> (of_char c :: int) \<noteq> 13"
    using set_letters [of 100] by auto
  have room: "length ([] :: string) + length ?line \<le> PATH_LEN - 2"
    using len by (simp add: PATH_LEN_def)
  have "shell_loop exec_fails initial_machine [] (map of_char ?line @ [10]) =
        shell_loop exec_fails (initial_machine\<lparr>trace := trace initial_machine @ map Putchar ?line\<rparr>)
          ([] @ ?line) [10]"
    using ok room by (rule shell_loop_typed)
  also have "\<dots> = Stop Argv_overrun (initial_machine\<lparr>trace := trace initial_machine @ map Putchar ?line\<rparr>)"
    using tok by (simp add: shell_turn_def del: replicate.simps)
  finally show ?thesis
    using len tok by (simp add: PATH_LEN_def del: replicate.simps)
qed

end
